theory Spec2Isabelle
  imports Main "HOL-Library.Word"
begin

section \<open>Go values used by package flow\<close>

text \<open>
  An \<open>error\<close> value is observed by the package only through its identity with
  \<open>io.EOF\<close> and through its \<open>Error()\<close> text. \<open>errors.New\<close> and \<open>fmt.Errorf\<close>
  (used without \<open>%w\<close>) both build a plain text error. A nil error is \<open>None\<close>.
\<close>

datatype error = io_EOF | ErrorString string

fun Error :: "error \<Rightarrow> string" where
  "Error io_EOF = ''EOF''"
| "Error (ErrorString s) = s"

definition errors_New :: "string \<Rightarrow> error" where
  "errors_New s = ErrorString s"

definition fmt_Errorf :: "string \<Rightarrow> error" where
  "fmt_Errorf s = ErrorString s"

text \<open>
  \<open>strings.Contains s sub\<close>: \<open>sub\<close> occurs in \<open>s\<close> as a contiguous run of bytes.
\<close>

fun strings_Contains :: "string \<Rightarrow> string \<Rightarrow> bool" where
  "strings_Contains [] sub = (sub = [])"
| "strings_Contains (c # s) sub =
     (take (length sub) (c # s) = sub \<or> strings_Contains s sub)"

text \<open>
  A call either returns, never returns (the goroutine stays blocked), or panics.
\<close>

datatype 'a call = Returns 'a | Blocks | Panics

section \<open>The loopback connection\<close>

text \<open>
  \<open>Pipe\<close> holds the unbuffered channel \<open>pipe\<close> and the channel \<open>close\<close>. Every
  goroutine parked on \<open>pipe\<close> is parked inside a \<open>select\<close> that also waits on
  \<open>close\<close>, so closing \<open>close\<close> releases all of them, and once \<open>close\<close> is closed
  no \<open>select\<close> parks any more. The state of an open pipe is therefore the number of
  parked receivers and the packets of the parked senders; a closed pipe has neither.
  A packet is an interface value and may be nil (\<open>None\<close>).
\<close>

datatype 'p Pipe = Open nat "'p option list" | Closed

definition NewPipe :: "'p Pipe" where
  "NewPipe = Open 0 []"

fun Pipe_Send :: "'p option \<Rightarrow> 'p Pipe \<Rightarrow> error option call \<times> 'p Pipe" where
  "Pipe_Send pkt (Open (Suc r) sq) = (Returns None, Open r sq)"
| "Pipe_Send pkt (Open 0 sq) = (Blocks, Open 0 (sq @ [pkt]))"
| "Pipe_Send pkt Closed = (Returns (Some (errors_New ''already closed'')), Closed)"

fun Pipe_Receive :: "'p Pipe \<Rightarrow> ('p option \<times> error option) call \<times> 'p Pipe" where
  "Pipe_Receive (Open r (pkt # sq)) = (Returns (pkt, None), Open r sq)"
| "Pipe_Receive (Open r []) = (Blocks, Open (Suc r) [])"
| "Pipe_Receive Closed = (Returns (None, Some io_EOF), Closed)"

text \<open>\<open>close(conn.close)\<close> on a channel that is already closed panics.\<close>

fun Pipe_Close :: "'p Pipe \<Rightarrow> error option call \<times> 'p Pipe" where
  "Pipe_Close (Open r sq) = (Returns None, Closed)"
| "Pipe_Close Closed = (Panics, Closed)"

text \<open>A sequence of later \<open>Send\<close> and \<open>Receive\<close> calls on one pipe, by any callers.\<close>

datatype 'p pipe_call = DoSend "'p option" | DoReceive

datatype 'p pipe_result =
  SendResult "error option call" | ReceiveResult "('p option \<times> error option) call"

fun pipe_calls :: "'p pipe_call list \<Rightarrow> 'p Pipe \<Rightarrow> 'p pipe_result list \<times> 'p Pipe" where
  "pipe_calls [] p = ([], p)"
| "pipe_calls (DoSend pkt # cs) p =
     (case Pipe_Send pkt p of (r, p') \<Rightarrow>
        (case pipe_calls cs p' of (rs, p'') \<Rightarrow> (SendResult r # rs, p'')))"
| "pipe_calls (DoReceive # cs) p =
     (case Pipe_Receive p of (r, p') \<Rightarrow>
        (case pipe_calls cs p' of (rs, p'') \<Rightarrow> (ReceiveResult r # rs, p'')))"

fun closed_result :: "'p pipe_call \<Rightarrow> 'p pipe_result" where
  "closed_result (DoSend pkt) = SendResult (Returns (Some (errors_New ''already closed'')))"
| "closed_result DoReceive = ReceiveResult (Returns (None, Some io_EOF))"

section \<open>The world a flow runs in\<close>

text \<open>
  Everything outside the flow is the world: a clock (nanoseconds) and the state \<open>'s\<close>
  of the connection, its peers and whatever the callbacks touch. An operation of the
  outside (a method of a \<open>Conn\<close>, a callback, a channel receive) takes the world
  and gives back how the call ended and the world it left.
\<close>

record 's world =
  clock :: int
  ext :: 's

type_synonym ('a, 's) op = "'s world \<Rightarrow> 'a call \<times> 's world"

text \<open>The interface \<open>Conn\<close>: any implementation of its three methods.\<close>

record ('p, 's) Conn =
  Conn_Send :: "'p option \<Rightarrow> (error option, 's) op"
  Conn_Receive :: "('p option \<times> error option, 's) op"
  Conn_Close :: "(error option, 's) op"

text \<open>
  What the package takes from outside this repository: the method \<open>String()\<close> of
  a packet (also what \<open>%v\<close> prints for a packet), the quoting done by the verb
  \<open>%q\<close> of \<open>fmt\<close>, and the receive \<open><-ch\<close> on a channel that is not nil.
\<close>

record ('p, 's, 'c) runtime =
  pkt_String :: "'p \<Rightarrow> string"
  fmt_q :: "string \<Rightarrow> string"
  chan_recv :: "'c \<Rightarrow> (unit, 's) op"

text \<open>\<open>time.Sleep d\<close> returns at once when \<open>d\<close> is not positive.\<close>

definition time_Sleep :: "64 word \<Rightarrow> 's world \<Rightarrow> 's world" where
  "time_Sleep d w = w\<lparr>clock := clock w + max 0 (sint d)\<rparr>"

text \<open>Sequencing: what follows a call runs only if the call returns.\<close>

definition and_then :: "'a call \<times> 't \<Rightarrow> ('a \<Rightarrow> 't \<Rightarrow> 'b call \<times> 't) \<Rightarrow> 'b call \<times> 't" where
  "and_then m k =
     (case m of
        (Returns x, t) \<Rightarrow> k x t
      | (Blocks, t) \<Rightarrow> (Blocks, t)
      | (Panics, t) \<Rightarrow> (Panics, t))"

section \<open>Actions and flows\<close>

definition actionSend :: "8 word" where "actionSend = 0"
definition actionReceive :: "8 word" where "actionReceive = 1"
definition actionSkip :: "8 word" where "actionSkip = 2"
definition actionWait :: "8 word" where "actionWait = 3"
definition actionRun :: "8 word" where "actionRun = 4"
definition actionDelay :: "8 word" where "actionDelay = 5"
definition actionClose :: "8 word" where "actionClose = 6"
definition actionEnd :: "8 word" where "actionEnd = 7"

record ('p, 's, 'c) action =
  kind :: "8 word"
  packet :: "'p option"
  fn :: "(unit, 's) op option"
  ch :: "'c option"
  duration :: "64 word"

text \<open>The struct literal \<open>&action{kind: k}\<close>: every other field has its zero value.\<close>

definition action_of_kind :: "8 word \<Rightarrow> ('p, 's, 'c) action" where
  "action_of_kind k = \<lparr>kind = k, packet = None, fn = None, ch = None, duration = 0\<rparr>"

record ('p, 's, 'c) Flow =
  actions :: "('p, 's, 'c) action list"

text \<open>
  A \<open>*Flow\<close> is an address in a store of flows; an address that holds no flow is the
  nil pointer, and reading \<open>f.actions\<close> through it panics.
\<close>

type_synonym ('p, 's, 'c) store = "('p, 's, 'c) Flow list"

definition New :: "('p, 's, 'c) store \<Rightarrow> nat \<times> ('p, 's, 'c) store" where
  "New h = (length h, h @ [\<lparr>actions = []\<rparr>])"

definition add :: "nat \<Rightarrow> ('p, 's, 'c) action \<Rightarrow> ('p, 's, 'c) store
    \<Rightarrow> unit call \<times> ('p, 's, 'c) store" where
  "add f a h =
     (if f < length h
      then (Returns (), h[f := (h ! f)\<lparr>actions := actions (h ! f) @ [a]\<rparr>])
      else (Panics, h))"

definition Flow_Send :: "nat \<Rightarrow> 'p option \<Rightarrow> ('p, 's, 'c) store
    \<Rightarrow> nat call \<times> ('p, 's, 'c) store" where
  "Flow_Send f pkt h =
     and_then (add f ((action_of_kind actionSend)\<lparr>packet := pkt\<rparr>) h) (\<lambda>_ h'. (Returns f, h'))"

definition Flow_Receive :: "nat \<Rightarrow> 'p option \<Rightarrow> ('p, 's, 'c) store
    \<Rightarrow> nat call \<times> ('p, 's, 'c) store" where
  "Flow_Receive f pkt h =
     and_then (add f ((action_of_kind actionReceive)\<lparr>packet := pkt\<rparr>) h) (\<lambda>_ h'. (Returns f, h'))"

definition Flow_Skip :: "nat \<Rightarrow> ('p, 's, 'c) store \<Rightarrow> nat call \<times> ('p, 's, 'c) store" where
  "Flow_Skip f h = and_then (add f (action_of_kind actionSkip) h) (\<lambda>_ h'. (Returns f, h'))"

definition Flow_Wait :: "nat \<Rightarrow> 'c option \<Rightarrow> ('p, 's, 'c) store
    \<Rightarrow> nat call \<times> ('p, 's, 'c) store" where
  "Flow_Wait f c h =
     and_then (add f ((action_of_kind actionWait)\<lparr>ch := c\<rparr>) h) (\<lambda>_ h'. (Returns f, h'))"

definition Flow_Run :: "nat \<Rightarrow> (unit, 's) op option \<Rightarrow> ('p, 's, 'c) store
    \<Rightarrow> nat call \<times> ('p, 's, 'c) store" where
  "Flow_Run f g h =
     and_then (add f ((action_of_kind actionRun)\<lparr>fn := g\<rparr>) h) (\<lambda>_ h'. (Returns f, h'))"

definition Flow_Delay :: "nat \<Rightarrow> 64 word \<Rightarrow> ('p, 's, 'c) store
    \<Rightarrow> nat call \<times> ('p, 's, 'c) store" where
  "Flow_Delay f d h =
     and_then (add f ((action_of_kind actionDelay)\<lparr>duration := d\<rparr>) h) (\<lambda>_ h'. (Returns f, h'))"

definition Flow_Close :: "nat \<Rightarrow> ('p, 's, 'c) store \<Rightarrow> nat call \<times> ('p, 's, 'c) store" where
  "Flow_Close f h = and_then (add f (action_of_kind actionClose) h) (\<lambda>_ h'. (Returns f, h'))"

definition Flow_End :: "nat \<Rightarrow> ('p, 's, 'c) store \<Rightarrow> nat call \<times> ('p, 's, 'c) store" where
  "Flow_End f h = and_then (add f (action_of_kind actionEnd) h) (\<lambda>_ h'. (Returns f, h'))"

section \<open>The synchronous executor\<close>

text \<open>
  The executor's effects on the outside are the calls it makes. Each is written to a
  log when it is made, so that what ran, and in which order, can be read off.
\<close>

datatype ('p, 'c) event =
  Call_Send "'p option" | Call_Receive | Call_Close
  | Recv_chan "'c option" | Call_fn | Sleep "64 word"

type_synonym ('p, 's, 'c) running = "'s world \<times> ('p, 'c) event list"

definition logged :: "('p, 'c) event \<Rightarrow> ('a, 's) op
    \<Rightarrow> ('p, 's, 'c) running \<Rightarrow> 'a call \<times> ('p, 's, 'c) running" where
  "logged ev f st = (case f (fst st) of (r, w') \<Rightarrow> (r, (w', snd st @ [ev])))"

definition fails :: "string \<Rightarrow> 't \<Rightarrow> error option call \<times> 't" where
  "fails msg t = (Returns (Some (fmt_Errorf msg)), t)"

definition goes_on :: "'t \<Rightarrow> error option call \<times> 't" where
  "goes_on t = (Returns None, t)"

text \<open>
  One pass through the body of the loop of \<open>Test\<close>: \<open>Returns None\<close> when the loop
  goes on to the next action, \<open>Returns (Some e)\<close> when \<open>Test\<close> returns \<open>e\<close>. Calling
  \<open>String()\<close> on a nil packet and calling a nil \<open>fn\<close> panic; receiving from a nil
  channel blocks for ever. A kind that is none of the eight does nothing.
\<close>

definition exec :: "('p, 's, 'c) runtime \<Rightarrow> ('p, 's) Conn \<Rightarrow> ('p, 's, 'c) action
    \<Rightarrow> ('p, 's, 'c) running \<Rightarrow> error option call \<times> ('p, 's, 'c) running" where
  "exec rt conn a st =
    (if kind a = actionSend then
       and_then (logged (Call_Send (packet a)) (Conn_Send conn (packet a)) st)
         (\<lambda>err st'. case err of
              Some e \<Rightarrow> fails (''error sending packet: '' @ Error e) st'
            | None \<Rightarrow> goes_on st')
     else if kind a = actionReceive then
       and_then (logged Call_Receive (Conn_Receive conn) st)
         (\<lambda>(pkt, err) st'. case err of
              Some e \<Rightarrow>
                fails (''expected to receive a packet but got error: '' @ Error e) st'
            | None \<Rightarrow>
                (case packet a of
                   None \<Rightarrow> (Panics, st')
                 | Some expected \<Rightarrow>
                     (case pkt of
                        None \<Rightarrow> (Panics, st')
                      | Some received \<Rightarrow>
                          (let want = pkt_String rt expected; got = pkt_String rt received
                           in if want \<noteq> got
                              then fails (''expected packet of '' @ fmt_q rt want
                                            @ '' but got '' @ fmt_q rt got) st'
                              else goes_on st'))))
     else if kind a = actionSkip then
       and_then (logged Call_Receive (Conn_Receive conn) st)
         (\<lambda>(pkt, err) st'. case err of
              Some e \<Rightarrow>
                fails (''expected to skip over a received packet but got error: ''
                         @ Error e) st'
            | None \<Rightarrow> goes_on st')
     else if kind a = actionWait then
       (case ch a of
          None \<Rightarrow> (Blocks, (fst st, snd st @ [Recv_chan None]))
        | Some c \<Rightarrow>
            and_then (logged (Recv_chan (Some c)) (chan_recv rt c) st) (\<lambda>_ st'. goes_on st'))
     else if kind a = actionRun then
       (case fn a of
          None \<Rightarrow> (Panics, st)
        | Some g \<Rightarrow> and_then (logged Call_fn g st) (\<lambda>_ st'. goes_on st'))
     else if kind a = actionDelay then
       goes_on (time_Sleep (duration a) (fst st), snd st @ [Sleep (duration a)])
     else if kind a = actionClose then
       and_then (logged Call_Close (Conn_Close conn) st)
         (\<lambda>err st'. case err of
              Some e \<Rightarrow>
                fails (''expected connection to close successfully but got error: ''
                         @ Error e) st'
            | None \<Rightarrow> goes_on st')
     else if kind a = actionEnd then
       and_then (logged Call_Receive (Conn_Receive conn) st)
         (\<lambda>(pkt, err) st'.
            if (case err of None \<Rightarrow> False
                | Some e \<Rightarrow> \<not> strings_Contains (Error e) ''EOF'')
            then fails (''expected EOF but got '' @ Error (the err)) st'
            else (case pkt of
                    Some received \<Rightarrow>
                      fails (''expected no packet but got '' @ pkt_String rt received) st'
                  | None \<Rightarrow> goes_on st'))
     else goes_on st)"

text \<open>
  The loop \<open>for _, action := range f.actions\<close>. The store of flows is carried along
  beside the world: callbacks and connections act on the world only.
\<close>

fun Test_loop :: "('p, 's, 'c) runtime \<Rightarrow> ('p, 's) Conn \<Rightarrow> ('p, 's, 'c) action list
    \<Rightarrow> ('p, 's, 'c) store \<times> ('p, 's, 'c) running
    \<Rightarrow> error option call \<times> ('p, 's, 'c) store \<times> ('p, 's, 'c) running" where
  "Test_loop rt conn [] hst = (Returns None, hst)"
| "Test_loop rt conn (a # as) (h, st) =
     (case exec rt conn a st of
        (Returns None, st') \<Rightarrow> Test_loop rt conn as (h, st')
      | (r, st') \<Rightarrow> (r, (h, st')))"

definition Test :: "('p, 's, 'c) runtime \<Rightarrow> ('p, 's) Conn \<Rightarrow> nat \<Rightarrow> ('p, 's, 'c) store
    \<Rightarrow> 's world \<Rightarrow> error option call \<times> ('p, 's, 'c) store \<times> ('p, 's, 'c) running" where
  "Test rt conn f h w =
     (if f < length h then Test_loop rt conn (actions (h ! f)) (h, (w, []))
      else (Panics, (h, (w, []))))"

text \<open>The calls that executing one action makes on the outside, by its kind.\<close>

definition call_of :: "('p, 's, 'c) action \<Rightarrow> ('p, 'c) event list" where
  "call_of a =
     (if kind a = actionSend then [Call_Send (packet a)]
      else if kind a = actionReceive then [Call_Receive]
      else if kind a = actionSkip then [Call_Receive]
      else if kind a = actionWait then [Recv_chan (ch a)]
      else if kind a = actionRun then (case fn a of None \<Rightarrow> [] | Some g \<Rightarrow> [Call_fn])
      else if kind a = actionDelay then [Sleep (duration a)]
      else if kind a = actionClose then [Call_Close]
      else if kind a = actionEnd then [Call_Receive]
      else [])"

section \<open>The asynchronous executor\<close>

text \<open>
  The goroutine of \<open>TestAsync\<close> runs one \<open>select\<close>. On entering it, Go evaluates the
  operands of all cases in source order: first \<open>time.After(timeout)\<close>, which starts
  the timer, then \<open>f.Test(conn)\<close>, which runs the whole flow. Only then are the
  cases examined: the send on the buffered, empty \<open>errCh\<close> can always proceed, the
  receive from the timer can proceed if the timer has fired, and one case that can
  proceed is chosen at random. The result is the list of values that may be
  delivered on \<open>errCh\<close>, exactly one of which is; the empty list says that nothing
  is ever delivered.
\<close>

definition timed_out :: error where
  "timed_out = errors_New ''timed out waiting for flow to complete''"

definition TestAsync :: "('p, 's, 'c) runtime \<Rightarrow> ('p, 's) Conn \<Rightarrow> nat \<Rightarrow> ('p, 's, 'c) store
    \<Rightarrow> 64 word \<Rightarrow> 's world \<Rightarrow> error option list" where
  "TestAsync rt conn f h timeout w =
     (let fires_at = clock w + max 0 (sint timeout)
      in case Test rt conn f h w of
           (Returns e, h', (w', tr)) \<Rightarrow>
             (if fires_at \<le> clock w' then [Some timed_out] else []) @ [e]
         | (Blocks, _) \<Rightarrow> []
         | (Panics, _) \<Rightarrow> [])"

section \<open>Concrete instances\<close>

text \<open>\<open>*Pipe\<close> implements \<open>Conn\<close>; its state is the \<open>ext\<close> part of the world.\<close>

definition on_ext :: "('s \<Rightarrow> 'a call \<times> 's) \<Rightarrow> ('a, 's) op" where
  "on_ext f w = (case f (ext w) of (r, s') \<Rightarrow> (r, w\<lparr>ext := s'\<rparr>))"

definition Pipe_Conn :: "('p, 'p Pipe) Conn" where
  "Pipe_Conn =
     \<lparr>Conn_Send = (\<lambda>pkt. on_ext (Pipe_Send pkt)),
      Conn_Receive = on_ext Pipe_Receive,
      Conn_Close = on_ext Pipe_Close\<rparr>"

text \<open>
  \<open>strconv.Quote\<close>, which \<open>%q\<close> applies to a string: the text between double
  quotes, with the double quote and the backslash escaped by a backslash, printable
  ASCII kept, the seven control characters with a letter escape written so, and any
  other byte below \<open>0x80\<close> written \<open>\xhh\<close>. A byte from \<open>0x80\<close> up is written
  \<open>\xhh\<close> as well, which is what Go does with a byte that is not part of a valid
  UTF-8 sequence; printable non-ASCII text, which Go keeps, is outside this model.
\<close>

definition lowerhex :: string where
  "lowerhex = ''0123456789abcdef''"

definition backslash :: char where
  "backslash = CHR 0x5C"

definition dquote :: char where
  "dquote = CHR 0x22"

definition quote_byte :: "char \<Rightarrow> string" where
  "quote_byte c =
     (let n = (of_char c :: nat) in
      if c = dquote \<or> c = backslash then [backslash, c]
      else if 0x20 \<le> n \<and> n < 0x7F then [c]
      else if n = 7 then [backslash, CHR ''a'']
      else if n = 8 then [backslash, CHR ''b'']
      else if n = 12 then [backslash, CHR ''f'']
      else if n = 10 then [backslash, CHR ''n'']
      else if n = 13 then [backslash, CHR ''r'']
      else if n = 9 then [backslash, CHR ''t'']
      else if n = 11 then [backslash, CHR ''v'']
      else [backslash, CHR ''x'', lowerhex ! (n div 16), lowerhex ! (n mod 16)])"

definition strconv_Quote :: "string \<Rightarrow> string" where
  "strconv_Quote s = [dquote] @ concat (map quote_byte s) @ [dquote]"

text \<open>
  A runtime for closed examples: packets are their own rendering, and every channel
  waited on has already been closed, so that a receive from it returns at once.
\<close>

definition closed_chans :: "(string, 's, nat) runtime" where
  "closed_chans =
     \<lparr>pkt_String = (\<lambda>p. p), fmt_q = strconv_Quote, chan_recv = (\<lambda>c w. (Returns (), w))\<rparr>"

section \<open>Properties of the loopback connection\<close>

lemmas action_kinds =
  actionSend_def actionReceive_def actionSkip_def actionWait_def
  actionRun_def actionDelay_def actionClose_def actionEnd_def


lemma pipe_calls_Closed: "pipe_calls cs Closed = (map closed_result cs, Closed)"
proof (induction cs)
  case Nil
  show ?case by simp
next
  case (Cons c cs)
  then show ?case by (cases c) simp_all
qed

lemma Pipe_Close_Returns: "Pipe_Close p = (Returns e, p') \<Longrightarrow> p' = Closed \<and> e = None"
  by (cases p) auto

text \<open>
  Claim C2. Once \<open>Close\<close> has returned, every later \<open>Send\<close>, for any packet, returns
  the error "already closed", and every later \<open>Receive\<close> returns no packet together
  with \<open>io.EOF\<close>, however many such calls have been made in between.
\<close>

theorem Pipe_after_Close:
  assumes "Pipe_Close p = (Returns e, p')"
  shows "fst (pipe_calls cs p') = map closed_result cs
       \<and> fst (Pipe_Send pkt (snd (pipe_calls cs p')))
           = Returns (Some (errors_New ''already closed''))
       \<and> Error (errors_New ''already closed'') = ''already closed''
       \<and> fst (Pipe_Receive (snd (pipe_calls cs p'))) = Returns (None, Some io_EOF)"
proof -
  from assms have "p' = Closed" by (simp add: Pipe_Close_Returns)
  then show ?thesis by (simp add: pipe_calls_Closed errors_New_def)
qed

theorem Pipe_after_Close_witness:
  "Pipe_Close (NewPipe :: string Pipe) = (Returns None, Closed)
   \<and> fst (pipe_calls [DoSend (Some ''CONNECT''), DoReceive] (Closed :: string Pipe))
       = [SendResult (Returns (Some (ErrorString ''already closed''))),
          ReceiveResult (Returns (None, Some io_EOF))]
   \<and> fst (Pipe_Receive (snd (pipe_calls [DoSend (Some ''CONNECT''), DoReceive]
         (Closed :: string Pipe)))) = Returns (None, Some io_EOF)"
proof -
  have h: "Pipe_Close (NewPipe :: string Pipe) = (Returns None, Closed)"
    by (simp add: NewPipe_def)
  show ?thesis
    using h Pipe_after_Close [OF h, of "[DoSend (Some ''CONNECT''), DoReceive]" None]
    by (simp add: errors_New_def)
qed

text \<open>
  Claim C6. A second \<open>Close\<close> does not return an error value: it panics. This holds
  for the call right after the first \<open>Close\<close> and after any \<open>Send\<close> and \<open>Receive\<close>
  calls in between, so the close signal fires at most once.
\<close>

theorem Pipe_Close_twice_panics:
  assumes "Pipe_Close p = (Returns e, p')"
  shows "fst (Pipe_Close (snd (pipe_calls cs p'))) = Panics"
proof -
  from assms have "p' = Closed" by (simp add: Pipe_Close_Returns)
  then show ?thesis by (simp add: pipe_calls_Closed)
qed

theorem Pipe_Close_twice_panics_witness:
  "Pipe_Close (NewPipe :: string Pipe) = (Returns None, Closed)
   \<and> fst (Pipe_Close (snd (pipe_calls [DoReceive] (Closed :: string Pipe)))) = Panics"
proof -
  have h: "Pipe_Close (NewPipe :: string Pipe) = (Returns None, Closed)"
    by (simp add: NewPipe_def)
  show ?thesis
    using h Pipe_Close_twice_panics [OF h, of "[DoReceive]"] by simp
qed

section \<open>The executor: its log, its loop\<close>

lemma and_then_logged_log:
  assumes "\<And>x t. snd (snd (k x t)) = snd t"
  shows "snd (snd (and_then (logged ev f st) k)) = snd st @ [ev]"
proof (cases "f (fst st)")
  case (Pair r w')
  then show ?thesis
    using assms by (cases r) (simp_all add: and_then_def logged_def)
qed

lemma fails_snd: "snd (fails m t) = t" by (simp add: fails_def)
lemma goes_on_snd: "snd (goes_on t) = t" by (simp add: goes_on_def)

lemma exec_log_Send:
  "kind a = actionSend \<Longrightarrow> snd (snd (exec rt conn a st)) = snd st @ [Call_Send (packet a)]"
  unfolding exec_def
  by (simp, rule and_then_logged_log) (simp add: fails_snd goes_on_snd split: option.splits)

lemma exec_log_Receive:
  "kind a = actionReceive \<Longrightarrow> snd (snd (exec rt conn a st)) = snd st @ [Call_Receive]"
  unfolding exec_def
  by (simp add: action_kinds, rule and_then_logged_log)
     (simp add: fails_snd goes_on_snd Let_def split: option.splits prod.splits)

lemma exec_log_Skip:
  "kind a = actionSkip \<Longrightarrow> snd (snd (exec rt conn a st)) = snd st @ [Call_Receive]"
  unfolding exec_def
  by (simp add: action_kinds, rule and_then_logged_log)
     (simp add: fails_snd goes_on_snd split: option.splits prod.splits)

lemma exec_log_Wait:
  "kind a = actionWait \<Longrightarrow> snd (snd (exec rt conn a st)) = snd st @ [Recv_chan (ch a)]"
proof (cases "ch a")
  case None
  assume "kind a = actionWait"
  with None show ?thesis by (simp add: exec_def action_kinds)
next
  case (Some c)
  assume "kind a = actionWait"
  with Some show ?thesis
    unfolding exec_def
    by (simp add: action_kinds, intro and_then_logged_log) (simp add: goes_on_snd)
qed

lemma exec_log_Run:
  "kind a = actionRun \<Longrightarrow>
   snd (snd (exec rt conn a st)) = snd st @ (case fn a of None \<Rightarrow> [] | Some g \<Rightarrow> [Call_fn])"
proof (cases "fn a")
  case None
  assume "kind a = actionRun"
  with None show ?thesis by (simp add: exec_def action_kinds)
next
  case (Some g)
  assume "kind a = actionRun"
  with Some show ?thesis
    unfolding exec_def
    by (simp add: action_kinds, intro and_then_logged_log) (simp add: goes_on_snd)
qed

lemma exec_log_Delay:
  "kind a = actionDelay \<Longrightarrow> snd (snd (exec rt conn a st)) = snd st @ [Sleep (duration a)]"
  by (simp add: exec_def action_kinds goes_on_def)

lemma exec_log_Close:
  "kind a = actionClose \<Longrightarrow> snd (snd (exec rt conn a st)) = snd st @ [Call_Close]"
  unfolding exec_def
  by (simp add: action_kinds, rule and_then_logged_log)
     (simp add: fails_snd goes_on_snd split: option.splits)

lemma exec_log_End:
  "kind a = actionEnd \<Longrightarrow> snd (snd (exec rt conn a st)) = snd st @ [Call_Receive]"
  unfolding exec_def
  by (simp add: action_kinds, rule and_then_logged_log)
     (simp add: fails_snd goes_on_snd split: option.splits prod.splits)

lemma exec_log_other:
  "kind a \<noteq> actionSend \<Longrightarrow> kind a \<noteq> actionReceive \<Longrightarrow> kind a \<noteq> actionSkip \<Longrightarrow>
   kind a \<noteq> actionWait \<Longrightarrow> kind a \<noteq> actionRun \<Longrightarrow> kind a \<noteq> actionDelay \<Longrightarrow>
   kind a \<noteq> actionClose \<Longrightarrow> kind a \<noteq> actionEnd \<Longrightarrow>
   snd (snd (exec rt conn a st)) = snd st"
  by (simp add: exec_def goes_on_def)

lemma exec_log: "snd (snd (exec rt conn a st)) = snd st @ call_of a"
proof -
  consider "kind a = actionSend" | "kind a = actionReceive" | "kind a = actionSkip"
    | "kind a = actionWait" | "kind a = actionRun" | "kind a = actionDelay"
    | "kind a = actionClose" | "kind a = actionEnd"
    | "kind a \<noteq> actionSend" "kind a \<noteq> actionReceive" "kind a \<noteq> actionSkip"
      "kind a \<noteq> actionWait" "kind a \<noteq> actionRun" "kind a \<noteq> actionDelay"
      "kind a \<noteq> actionClose" "kind a \<noteq> actionEnd"
    by blast
  then show ?thesis
  proof cases
    case 1 then show ?thesis by (simp add: exec_log_Send call_of_def)
  next
    case 2 then show ?thesis by (simp add: exec_log_Receive call_of_def action_kinds)
  next
    case 3 then show ?thesis by (simp add: exec_log_Skip call_of_def action_kinds)
  next
    case 4 then show ?thesis by (simp add: exec_log_Wait call_of_def action_kinds)
  next
    case 5 then show ?thesis by (simp add: exec_log_Run call_of_def action_kinds)
  next
    case 6 then show ?thesis by (simp add: exec_log_Delay call_of_def action_kinds)
  next
    case 7 then show ?thesis by (simp add: exec_log_Close call_of_def action_kinds)
  next
    case 8 then show ?thesis by (simp add: exec_log_End call_of_def action_kinds)
  next
    case 9 then show ?thesis by (simp add: exec_log_other call_of_def)
  qed
qed

lemma Test_loop_Cons_goes_on:
  "exec rt conn a st = (Returns None, st') \<Longrightarrow>
   Test_loop rt conn (a # as) (h, st) = Test_loop rt conn as (h, st')"
  by simp

lemma Test_loop_Cons_stops:
  "exec rt conn a st = (r, st') \<Longrightarrow> r \<noteq> Returns None \<Longrightarrow>
   Test_loop rt conn (a # as) (h, st) = (r, (h, st'))"
  by (cases r) (auto split: option.splits)

lemma Test_loop_store: "fst (snd (Test_loop rt conn as (h, st))) = h"
proof (induction as arbitrary: st)
  case Nil
  show ?case by simp
next
  case (Cons a as)
  obtain r st' where e: "exec rt conn a st = (r, st')" by (cases "exec rt conn a st")
  show ?case
  proof (cases "r = Returns None")
    case True
    with e Cons show ?thesis by (simp only: Test_loop_Cons_goes_on)
  next
    case False
    show ?thesis by (simp only: Test_loop_Cons_stops [OF e False] fst_conv snd_conv)
  qed
qed

lemma Test_loop_append:
  "Test_loop rt conn (xs @ ys) (h, st) =
     (case Test_loop rt conn xs (h, st) of
        (Returns None, hst) \<Rightarrow> Test_loop rt conn ys hst
      | (r, hst) \<Rightarrow> (r, hst))"
proof (induction xs arbitrary: st)
  case Nil
  show ?case by simp
next
  case (Cons a xs)
  obtain r st' where e: "exec rt conn a st = (r, st')" by (cases "exec rt conn a st")
  show ?case
  proof (cases "r = Returns None")
    case True
    with e have "Test_loop rt conn ((a # xs) @ ys) (h, st) = Test_loop rt conn (xs @ ys) (h, st')"
      and "Test_loop rt conn (a # xs) (h, st) = Test_loop rt conn xs (h, st')"
      by (simp_all only: append_Cons Test_loop_Cons_goes_on)
    with Cons [of st'] show ?thesis by (simp only:)
  next
    case False
    have "Test_loop rt conn ((a # xs) @ ys) (h, st) = (r, (h, st'))"
      and "Test_loop rt conn (a # xs) (h, st) = (r, (h, st'))"
      by (simp_all only: append_Cons Test_loop_Cons_stops [OF e False])
    with False show ?thesis by (cases r) (auto split: option.splits)
  qed
qed

lemma Test_loop_log:
  "\<exists>n\<le>length as.
      snd (snd (snd (Test_loop rt conn as (h, st)))) = snd st @ concat (map call_of (take n as))
      \<and> (fst (Test_loop rt conn as (h, st)) = Returns None \<longrightarrow> n = length as)"
proof (induction as arbitrary: st)
  case Nil
  show ?case by simp
next
  case (Cons a as)
  obtain r st' where e: "exec rt conn a st = (r, st')" by (cases "exec rt conn a st")
  have l: "snd st' = snd st @ call_of a" using exec_log [of rt conn a st] e by simp
  show ?case
  proof (cases "r = Returns None")
    case True
    with e have t: "Test_loop rt conn (a # as) (h, st) = Test_loop rt conn as (h, st')"
      by (simp only: Test_loop_Cons_goes_on)
    from Cons [of st'] obtain n where n: "n \<le> length as"
      "snd (snd (snd (Test_loop rt conn as (h, st')))) = snd st' @ concat (map call_of (take n as))"
      "fst (Test_loop rt conn as (h, st')) = Returns None \<longrightarrow> n = length as" by blast
    have "Suc n \<le> length (a # as)" using n(1) by simp
    moreover have "snd (snd (snd (Test_loop rt conn (a # as) (h, st))))
        = snd st @ concat (map call_of (take (Suc n) (a # as)))"
      using n(2) l t by simp
    moreover have "fst (Test_loop rt conn (a # as) (h, st)) = Returns None
        \<longrightarrow> Suc n = length (a # as)"
      using n(3) t by simp
    ultimately show ?thesis by blast
  next
    case False
    have t: "Test_loop rt conn (a # as) (h, st) = (r, (h, st'))"
      by (rule Test_loop_Cons_stops [OF e False])
    have "Suc 0 \<le> length (a # as)" by simp
    moreover have "snd (snd (snd (Test_loop rt conn (a # as) (h, st))))
        = snd st @ concat (map call_of (take (Suc 0) (a # as)))"
      using l t by simp
    moreover have "fst (Test_loop rt conn (a # as) (h, st)) = Returns None
        \<longrightarrow> Suc 0 = length (a # as)"
      using False t by simp
    ultimately show ?thesis by blast
  qed
qed

lemma Test_loop_failure:
  "fst (Test_loop rt conn as (h, st)) \<noteq> Returns None \<Longrightarrow>
   \<exists>pre a post st1. as = pre @ a # post
      \<and> Test_loop rt conn pre (h, st) = (Returns None, (h, st1))
      \<and> exec rt conn a st1 = (fst (Test_loop rt conn as (h, st)),
                               snd (snd (Test_loop rt conn as (h, st))))"
proof (induction as arbitrary: st)
  case Nil
  then show ?case by simp
next
  case (Cons a as)
  obtain r st' where e: "exec rt conn a st = (r, st')" by (cases "exec rt conn a st")
  show ?case
  proof (cases "r = Returns None")
    case True
    with e have t: "Test_loop rt conn (a # as) (h, st) = Test_loop rt conn as (h, st')"
      by (simp only: Test_loop_Cons_goes_on)
    with Cons.prems have "fst (Test_loop rt conn as (h, st')) \<noteq> Returns None" by simp
    from Cons.IH [OF this] obtain pre b post st1 where p:
      "as = pre @ b # post" "Test_loop rt conn pre (h, st') = (Returns None, (h, st1))"
      "exec rt conn b st1 = (fst (Test_loop rt conn as (h, st')),
                             snd (snd (Test_loop rt conn as (h, st'))))" by blast
    have "a # as = (a # pre) @ b # post" using p(1) by simp
    moreover have "Test_loop rt conn (a # pre) (h, st) = (Returns None, (h, st1))"
      using e True p(2) by (simp only: Test_loop_Cons_goes_on)
    moreover have "exec rt conn b st1 = (fst (Test_loop rt conn (a # as) (h, st)),
                             snd (snd (Test_loop rt conn (a # as) (h, st))))"
      using p(3) t by (simp only:)
    ultimately show ?thesis by blast
  next
    case False
    have t: "Test_loop rt conn (a # as) (h, st) = (r, (h, st'))"
      by (rule Test_loop_Cons_stops [OF e False])
    have "a # as = [] @ a # as" by simp
    moreover have "Test_loop rt conn [] (h, st) = (Returns None, (h, st))" by simp
    moreover have "exec rt conn a st = (fst (Test_loop rt conn (a # as) (h, st)),
                             snd (snd (Test_loop rt conn (a # as) (h, st))))"
      using e t by simp
    ultimately show ?thesis by blast
  qed
qed

end
